theory Spec2Isabelle
  imports Main
begin

section \<open>The State pattern: \<open>Behavoral/state.py\<close>\<close>

text \<open>
  The three concrete state classes carry no fields, so an instance is determined by its
  class: the class hierarchy under \<open>PlayerState\<close> is a datatype with one constructor
  per subclass.
\<close>

datatype PlayerState = StoppedState | PlayingState | PausedState

text \<open>
  Every \<open>print\<close> of the script is one constructor; the argument of \<open>Initialized\<close> and
  \<open>Transitioned\<close> is the class whose \<open>__name__\<close> the f-string interpolates.
\<close>

datatype player_line =
    Initialized PlayerState           \<comment> \<open>\<open>PLAYER: Initialized in {name}.\<close>\<close>
  | Transitioned PlayerState          \<comment> \<open>\<open>PLAYER: State transitioned to {name}.\<close>\<close>
  | StartingPlayback                  \<comment> \<open>\<open>STATE: Starting playback from the beginning.\<close>\<close>
  | CannotPauseWhenStopped            \<comment> \<open>\<open>STATE: Cannot pause when already stopped.\<close>\<close>
  | AlreadyStopped                    \<comment> \<open>\<open>STATE: Already stopped.\<close>\<close>
  | AlreadyPlaying                    \<comment> \<open>\<open>STATE: Already playing.\<close>\<close>
  | PausingPlayback                   \<comment> \<open>\<open>STATE: Pausing playback.\<close>\<close>
  | StoppingPlayback                  \<comment> \<open>\<open>STATE: Stopping playback. Rewinding.\<close>\<close>
  | ResumingPlayback                  \<comment> \<open>\<open>STATE: Resuming playback from current position.\<close>\<close>
  | AlreadyPaused                     \<comment> \<open>\<open>STATE: Already paused.\<close>\<close>

text \<open>The context object: its \<open>_state\<close> attribute and what it has printed so far.\<close>

record MediaPlayers =
  state :: PlayerState
  printed :: "player_line list"

definition print_line :: "player_line \<Rightarrow> MediaPlayers \<Rightarrow> MediaPlayers" where
  "print_line l player = player\<lparr>printed := printed player @ [l]\<rparr>"

text \<open>\<open>MediaPlayers.__init__\<close>\<close>

definition MediaPlayers_init :: MediaPlayers where
  "MediaPlayers_init =
     print_line (Initialized StoppedState) \<lparr>state = StoppedState, printed = []\<rparr>"

text \<open>\<open>MediaPlayers.set_state\<close>: no validation, the attribute is replaced.\<close>

definition set_state :: "PlayerState \<Rightarrow> MediaPlayers \<Rightarrow> MediaPlayers" where
  "set_state new_state player =
     print_line (Transitioned new_state) (player\<lparr>state := new_state\<rparr>)"

text \<open>
  The handlers \<open>play\<close>, \<open>pause\<close> and \<open>stop\<close>, dispatched on the class of the receiver
  (the first argument); one equation per method body.
\<close>

fun play :: "PlayerState \<Rightarrow> MediaPlayers \<Rightarrow> MediaPlayers" where
  "play StoppedState player = set_state PlayingState (print_line StartingPlayback player)"
| "play PlayingState player = print_line AlreadyPlaying player"
| "play PausedState player = set_state PlayingState (print_line ResumingPlayback player)"

fun pause :: "PlayerState \<Rightarrow> MediaPlayers \<Rightarrow> MediaPlayers" where
  "pause StoppedState player = print_line CannotPauseWhenStopped player"
| "pause PlayingState player = set_state PausedState (print_line PausingPlayback player)"
| "pause PausedState player = print_line AlreadyPaused player"

fun stop :: "PlayerState \<Rightarrow> MediaPlayers \<Rightarrow> MediaPlayers" where
  "stop StoppedState player = print_line AlreadyStopped player"
| "stop PlayingState player = set_state StoppedState (print_line StoppingPlayback player)"
| "stop PausedState player = set_state StoppedState (print_line StoppingPlayback player)"

text \<open>The delegation methods of the context: \<open>self._state.play(self)\<close> and so on.\<close>

definition press_play :: "MediaPlayers \<Rightarrow> MediaPlayers" where
  "press_play player = play (state player) player"

definition press_pause :: "MediaPlayers \<Rightarrow> MediaPlayers" where
  "press_pause player = pause (state player) player"

definition press_stop :: "MediaPlayers \<Rightarrow> MediaPlayers" where
  "press_stop player = stop (state player) player"


section \<open>The Command pattern: \<open>Behavioral/command.py\<close>\<close>

subsection \<open>Python slicing\<close>

text \<open>
  A slice bound of Python is an integer of any sign and size. On a sequence of length
  \<open>n\<close>, a negative bound counts from the end and stops at 0, any other bound stops at
  \<open>n\<close>; a slice whose lower bound is not below its upper bound is empty. Slicing never
  raises.
\<close>

definition slice_index :: "nat \<Rightarrow> int \<Rightarrow> nat" where
  "slice_index n i = (if i < 0 then nat (max (i + int n) 0) else min (nat i) n)"

text \<open>\<open>xs[:i]\<close>, \<open>xs[i:]\<close> and \<open>xs[i:j]\<close>\<close>

definition slice_to :: "'a list \<Rightarrow> int \<Rightarrow> 'a list" where
  "slice_to xs i = take (slice_index (length xs) i) xs"

definition slice_from :: "'a list \<Rightarrow> int \<Rightarrow> 'a list" where
  "slice_from xs i = drop (slice_index (length xs) i) xs"

definition slice :: "'a list \<Rightarrow> int \<Rightarrow> int \<Rightarrow> 'a list" where
  "slice xs i j =
     (let lo = slice_index (length xs) i; hi = slice_index (length xs) j
      in take (hi - lo) (drop lo xs))"

subsection \<open>The receiver\<close>

record TextEditor =
  content :: string

text \<open>\<open>TextEditor.insert_text\<close>\<close>

definition insert_text :: "string \<Rightarrow> int \<Rightarrow> TextEditor \<Rightarrow> TextEditor" where
  "insert_text text position self =
     self\<lparr>content := slice_to (content self) position @ text @ slice_from (content self) position\<rparr>"

text \<open>\<open>TextEditor.delete_text\<close>: the deleted text is returned, the editor is updated.\<close>

definition delete_text :: "int \<Rightarrow> int \<Rightarrow> TextEditor \<Rightarrow> string \<times> TextEditor" where
  "delete_text start end' self =
     (let deleted_text = slice (content self) start end'
      in (deleted_text,
          self\<lparr>content := slice_to (content self) start @ slice_from (content self) end'\<rparr>))"

subsection \<open>Command objects\<close>

text \<open>
  A command is a mutable object: \<open>DeleteTextCommand.execute\<close> assigns its
  \<open>_deleted_text\<close> attribute, and the very same object sits in the invoker's stacks and
  in the hands of the client. Commands therefore live in a store and are named by
  references; the stacks hold references. The fields are those set by \<open>__init__\<close>; the
  last field of \<open>DeleteTextCommand\<close> is \<open>_deleted_text\<close>, \<open>None\<close> until \<open>execute\<close> runs.
  The \<open>_editor\<close> attribute is not a field: all commands are bound to the one editor of
  the script.
\<close>

type_synonym ref = nat

datatype command =
    InsertTextCommand string int
  | DeleteTextCommand int int "string option"

text \<open>The printed lines, one constructor per \<open>print\<close>, with the interpolated values.\<close>

datatype line =
    EditorInitialContent string       \<comment> \<open>\<open>EDITOR: Initial content: '{content}'\<close>\<close>
  | ExecutedInsert string string      \<comment> \<open>\<open>COMMAND: Executed Insert('{text}') -> '{content}'\<close>\<close>
  | UndoneInsert string               \<comment> \<open>\<open>COMMAND: Undone Insert -> '{content}'\<close>\<close>
  | ExecutedDelete string string      \<comment> \<open>\<open>COMMAND: Executed Delete('{deleted}') -> '{content}'\<close>\<close>
  | UndoneDelete string               \<comment> \<open>\<open>COMMAND: Undone Delete -> '{content}'\<close>\<close>
  | CommandExecuted nat               \<comment> \<open>\<open>INVOKER: Command executed and saved to history. History size: {n}\<close>\<close>
  | CannotUndo                        \<comment> \<open>\<open>INVOKER: Cannot undo. History is empty.\<close>\<close>
  | UndoSuccessful nat nat            \<comment> \<open>\<open>INVOKER: Undo successful. History size: {n}. Redo size: {m}\<close>\<close>
  | CannotRedo                        \<comment> \<open>\<open>INVOKER: Cannot redo. Redo stack is empty.\<close>\<close>
  | RedoSuccessful nat nat            \<comment> \<open>\<open>INVOKER: Redo successful. History size: {n}. Redo size: {m}\<close>\<close>

text \<open>
  The invoker's two stacks. A Python list used as a stack grows and shrinks at its end:
  \<open>append\<close> is \<open>xs @ [x]\<close>, \<open>pop\<close> returns \<open>last xs\<close> and leaves \<open>butlast xs\<close>.
\<close>

record CommandInvoker =
  history :: "ref list"
  redo_stack :: "ref list"

text \<open>Everything the script can change: the editor, the command objects, the invoker, the output.\<close>

record world =
  editor :: TextEditor
  commands :: "ref \<Rightarrow> command"
  invoker :: CommandInvoker
  stdout :: "line list"

definition print :: "line \<Rightarrow> world \<Rightarrow> world" where
  "print l w = w\<lparr>stdout := stdout w @ [l]\<rparr>"

text \<open>\<open>InsertTextCommand.execute\<close> and \<open>InsertTextCommand.undo\<close>\<close>

definition InsertTextCommand_execute :: "string \<Rightarrow> int \<Rightarrow> world \<Rightarrow> world" where
  "InsertTextCommand_execute text position w =
     (let w1 = w\<lparr>editor := insert_text text position (editor w)\<rparr>
      in print (ExecutedInsert text (content (editor w1))) w1)"

definition InsertTextCommand_undo :: "string \<Rightarrow> int \<Rightarrow> world \<Rightarrow> world" where
  "InsertTextCommand_undo text position w =
     (let w1 = w\<lparr>editor := snd (delete_text position (position + int (length text)) (editor w))\<rparr>
      in print (UndoneInsert (content (editor w1))) w1)"

text \<open>
  \<open>DeleteTextCommand.execute\<close> stores the deleted text in the object at \<open>self\<close>;
  \<open>DeleteTextCommand.undo\<close> does nothing at all when \<open>_deleted_text\<close> is \<open>None\<close>.
\<close>

definition DeleteTextCommand_execute :: "ref \<Rightarrow> int \<Rightarrow> int \<Rightarrow> world \<Rightarrow> world" where
  "DeleteTextCommand_execute self start end' w =
     (let (deleted_text, e) = delete_text start end' (editor w);
          w1 = w\<lparr>editor := e,
                 commands := (commands w)(self := DeleteTextCommand start end' (Some deleted_text))\<rparr>
      in print (ExecutedDelete deleted_text (content (editor w1))) w1)"

definition DeleteTextCommand_undo :: "int \<Rightarrow> string option \<Rightarrow> world \<Rightarrow> world" where
  "DeleteTextCommand_undo start deleted w =
     (case deleted of
        None \<Rightarrow> w
      | Some deleted_text \<Rightarrow>
          (let w1 = w\<lparr>editor := insert_text deleted_text start (editor w)\<rparr>
           in print (UndoneDelete (content (editor w1))) w1))"

text \<open>\<open>command.execute()\<close> and \<open>command.undo()\<close>: dispatch on the class of the object.\<close>

definition Command_execute :: "ref \<Rightarrow> world \<Rightarrow> world" where
  "Command_execute c w =
     (case commands w c of
        InsertTextCommand text position \<Rightarrow> InsertTextCommand_execute text position w
      | DeleteTextCommand start end' deleted \<Rightarrow> DeleteTextCommand_execute c start end' w)"

definition Command_undo :: "ref \<Rightarrow> world \<Rightarrow> world" where
  "Command_undo c w =
     (case commands w c of
        InsertTextCommand text position \<Rightarrow> InsertTextCommand_undo text position w
      | DeleteTextCommand start end' deleted \<Rightarrow> DeleteTextCommand_undo start deleted w)"

subsection \<open>The invoker\<close>

definition history_append :: "ref \<Rightarrow> world \<Rightarrow> world" where
  "history_append c w = w\<lparr>invoker := (invoker w)\<lparr>history := history (invoker w) @ [c]\<rparr>\<rparr>"

definition history_pop :: "world \<Rightarrow> world" where
  "history_pop w = w\<lparr>invoker := (invoker w)\<lparr>history := butlast (history (invoker w))\<rparr>\<rparr>"

definition redo_append :: "ref \<Rightarrow> world \<Rightarrow> world" where
  "redo_append c w = w\<lparr>invoker := (invoker w)\<lparr>redo_stack := redo_stack (invoker w) @ [c]\<rparr>\<rparr>"

definition redo_pop :: "world \<Rightarrow> world" where
  "redo_pop w = w\<lparr>invoker := (invoker w)\<lparr>redo_stack := butlast (redo_stack (invoker w))\<rparr>\<rparr>"

definition redo_clear :: "world \<Rightarrow> world" where
  "redo_clear w = w\<lparr>invoker := (invoker w)\<lparr>redo_stack := []\<rparr>\<rparr>"

text \<open>\<open>CommandInvoker.execute_command\<close>\<close>

definition execute_command :: "ref \<Rightarrow> world \<Rightarrow> world" where
  "execute_command command w =
     (let w1 = Command_execute command w;
          w2 = history_append command w1;
          w3 = redo_clear w2
      in print (CommandExecuted (length (history (invoker w3)))) w3)"

text \<open>
  \<open>CommandInvoker.undo\<close>: the early return on an empty history is the first branch; the
  method returns \<open>None\<close> on both paths, what tells them apart is the printed line.
\<close>

definition undo :: "world \<Rightarrow> world" where
  "undo w =
     (if history (invoker w) = [] then print CannotUndo w
      else
        (let command = last (history (invoker w));
             w1 = history_pop w;
             w2 = Command_undo command w1;
             w3 = redo_append command w2
         in print (UndoSuccessful (length (history (invoker w3)))
                                  (length (redo_stack (invoker w3)))) w3))"

text \<open>\<open>CommandInvoker.redo\<close>\<close>

definition redo :: "world \<Rightarrow> world" where
  "redo w =
     (if redo_stack (invoker w) = [] then print CannotRedo w
      else
        (let command = last (redo_stack (invoker w));
             w1 = redo_pop w;
             w2 = Command_execute command w1;
             w3 = history_append command w2
         in print (RedoSuccessful (length (history (invoker w3)))
                                  (length (redo_stack (invoker w3)))) w3))"

text \<open>Executing a sequence of commands through the invoker, first to last.\<close>

fun execute_all :: "ref list \<Rightarrow> world \<Rightarrow> world" where
  "execute_all [] w = w"
| "execute_all (c # cs) w = execute_all cs (execute_command c w)"

text \<open>
  A client's first steps: \<open>TextEditor(content)\<close>, which prints the initial content,
  \<open>CommandInvoker()\<close> with both stacks empty, and the command objects it constructs,
  given as the store.
\<close>

definition initial_world :: "string \<Rightarrow> (ref \<Rightarrow> command) \<Rightarrow> world" where
  "initial_world initial_content objects =
     \<lparr>editor = \<lparr>content = initial_content\<rparr>,
      commands = objects,
      invoker = \<lparr>history = [], redo_stack = []\<rparr>,
      stdout = [EditorInitialContent initial_content]\<rparr>"

text \<open>
  The script's own client: \<open>insert_cmd_1\<close> is the object at reference 0 and
  \<open>delete_cmd_1\<close> the object at reference 1; no other reference is used.
\<close>

definition main_world :: world where
  "main_world =
     initial_world ''The quick brown fox.''
       ((\<lambda>_. InsertTextCommand [] 0)
          (0 := InsertTextCommand ''lazy '' 4, 1 := DeleteTextCommand 14 20 None))"

subsection \<open>Index conditions and the error classes of the specification\<close>

text \<open>
  The condition under which a command can be taken back: no index is negative, an
  insertion lies within the content it meets, and a deletion's start is not after its
  end. The end of a deletion may lie beyond the content.
\<close>

fun indices_ok :: "string \<Rightarrow> command \<Rightarrow> bool" where
  "indices_ok c (InsertTextCommand text position) =
     (0 \<le> position \<and> position \<le> int (length c))"
| "indices_ok c (DeleteTextCommand start end' deleted) = (0 \<le> start \<and> start \<le> end')"

text \<open>The same condition for each command of a sequence, on the content it is executed on.\<close>

fun indices_ok_all :: "ref list \<Rightarrow> world \<Rightarrow> bool" where
  "indices_ok_all [] w = True"
| "indices_ok_all (c # cs) w =
     (indices_ok (content (editor w)) (commands w c) \<and> indices_ok_all cs (execute_command c w))"

text \<open>A deletion range that does not lie within a content of length \<open>n\<close>.\<close>

definition outside_bounds :: "nat \<Rightarrow> int \<Rightarrow> int \<Rightarrow> bool" where
  "outside_bounds n start end' = (start < 0 \<or> end' < start \<or> int n < end')"

text \<open>
  The script raises nowhere, so its functions are total. The specification names two
  error classes; the two definitions below follow its section on error handling, word
  for word, and are compared with the script's functions: a deletion outside the bounds
  is an \<open>OutOfRange\<close> error, undoing a deletion that never ran is an \<open>InvalidState\<close>
  error, and otherwise the command does what the script does.
\<close>

datatype error = OutOfRange | InvalidState

definition spec_delete_execute :: "ref \<Rightarrow> int \<Rightarrow> int \<Rightarrow> world \<Rightarrow> error + world" where
  "spec_delete_execute self start end' w =
     (if outside_bounds (length (content (editor w))) start end' then Inl OutOfRange
      else Inr (DeleteTextCommand_execute self start end' w))"

definition spec_delete_undo :: "int \<Rightarrow> string option \<Rightarrow> world \<Rightarrow> error + world" where
  "spec_delete_undo start deleted w =
     (case deleted of
        None \<Rightarrow> Inl InvalidState
      | Some deleted_text \<Rightarrow> Inr (DeleteTextCommand_undo start deleted w))"


section \<open>The Memento pattern: \<open>Behavioral/memento.py\<close>\<close>

text \<open>
  A \<open>FormState\<close> holds a private copy of the field values and a fixed text; nothing
  assigns to it after \<open>__init__\<close> and \<open>get_saved_state\<close> hands out copies, so a memento
  is a value. The dictionary is an association list, in insertion order.
\<close>

record FormState =
  saved_state :: "(string \<times> string) list"
  timestamp :: string

definition FormState_init :: "(string \<times> string) list \<Rightarrow> FormState" where
  "FormState_init field_values =
     \<lparr>saved_state = field_values, timestamp = ''Snapshot created at [Time/Date simulation]''\<rparr>"

definition get_saved_state :: "FormState \<Rightarrow> (string \<times> string) list" where
  "get_saved_state self = saved_state self"

datatype history_line =
    SavedMemento nat                  \<comment> \<open>\<open>HISTORY: Saved Memento. Total snapshots: {n}\<close>\<close>
  | CannotUndoNoPrevious              \<comment> \<open>\<open>HISTORY: Cannot undo. No previous state found.\<close>\<close>

text \<open>The caretaker: its \<open>_history\<close> list, last saved memento last, and its output.\<close>

record HistoryManager =
  snapshots :: "FormState list"
  reported :: "history_line list"

definition HistoryManager_init :: HistoryManager where
  "HistoryManager_init = \<lparr>snapshots = [], reported = []\<rparr>"

text \<open>\<open>HistoryManager.save_state\<close>\<close>

definition save_state :: "FormState \<Rightarrow> HistoryManager \<Rightarrow> HistoryManager" where
  "save_state memento self =
     (let self1 = self\<lparr>snapshots := snapshots self @ [memento]\<rparr>
      in self1\<lparr>reported := reported self1 @ [SavedMemento (length (snapshots self1))]\<rparr>)"

text \<open>
  \<open>HistoryManager.undo\<close>: the result is the returned value (\<open>None\<close> of Python is \<open>None\<close>)
  and the caretaker after the call. After the \<open>pop\<close> the list is not empty, since it had
  two elements at least, so \<open>self._history[-1]\<close> is its last element.
\<close>

definition HistoryManager_undo :: "HistoryManager \<Rightarrow> FormState option \<times> HistoryManager" where
  "HistoryManager_undo self =
     (if length (snapshots self) < 2
      then (None, self\<lparr>reported := reported self @ [CannotUndoNoPrevious]\<rparr>)
      else
        (let self1 = self\<lparr>snapshots := butlast (snapshots self)\<rparr>
         in (Some (last (snapshots self1)), self1)))"


section \<open>Theorems\<close>

subsection \<open>The transition table of the media player\<close>

lemmas player_defs =
  press_play_def press_pause_def press_stop_def set_state_def print_line_def

text \<open>
  Claim C2. A new \<open>MediaPlayers\<close> is in \<open>StoppedState\<close>, and each of the nine pairs of a
  current state and a pressed button ends in the state the table gives: from Stopped,
  play leads to Playing, pause and stop stay in Stopped; from Playing, pause leads to
  Paused, stop leads to Stopped, play stays in Playing; from Paused, play leads to
  Playing, stop leads to Stopped, pause stays in Paused. The player \<open>p\<close> is arbitrary
  apart from its state, so the table holds whatever has been printed before.
\<close>

theorem state_table_complete:
  "state MediaPlayers_init = StoppedState
   \<and> state (press_play  (p\<lparr>state := StoppedState\<rparr>)) = PlayingState
   \<and> state (press_pause (p\<lparr>state := StoppedState\<rparr>)) = StoppedState
   \<and> state (press_stop  (p\<lparr>state := StoppedState\<rparr>)) = StoppedState
   \<and> state (press_play  (p\<lparr>state := PlayingState\<rparr>)) = PlayingState
   \<and> state (press_pause (p\<lparr>state := PlayingState\<rparr>)) = PausedState
   \<and> state (press_stop  (p\<lparr>state := PlayingState\<rparr>)) = StoppedState
   \<and> state (press_play  (p\<lparr>state := PausedState\<rparr>)) = PlayingState
   \<and> state (press_pause (p\<lparr>state := PausedState\<rparr>)) = PausedState
   \<and> state (press_stop  (p\<lparr>state := PausedState\<rparr>)) = StoppedState"
  by (simp add: MediaPlayers_init_def player_defs)


subsection \<open>What each step of the invoker does to the stacks, the store and the editor\<close>

lemmas invoker_defs =
  history_append_def history_pop_def redo_append_def redo_pop_def redo_clear_def print_def

lemmas command_defs =
  Command_execute_def Command_undo_def InsertTextCommand_execute_def
  InsertTextCommand_undo_def DeleteTextCommand_execute_def DeleteTextCommand_undo_def

lemma invoker_Command_execute [simp]: "invoker (Command_execute c w) = invoker w"
  by (simp add: command_defs print_def Let_def split: command.split prod.split)

lemma invoker_Command_undo [simp]: "invoker (Command_undo c w) = invoker w"
  by (simp add: command_defs print_def Let_def split: command.split option.split)

lemma commands_Command_undo [simp]: "commands (Command_undo c w) = commands w"
  by (simp add: command_defs print_def Let_def split: command.split option.split)

lemma commands_Command_execute_other:
  "c' \<noteq> c \<Longrightarrow> commands (Command_execute c w) c' = commands w c'"
  by (simp add: command_defs print_def Let_def split: command.split prod.split)

lemma invoker_execute_command:
  "invoker (execute_command c w) = \<lparr>history = history (invoker w) @ [c], redo_stack = []\<rparr>"
  by (simp add: execute_command_def invoker_defs Let_def)

lemma editor_execute_command: "editor (execute_command c w) = editor (Command_execute c w)"
  by (simp add: execute_command_def invoker_defs Let_def)

lemma commands_execute_command: "commands (execute_command c w) = commands (Command_execute c w)"
  by (simp add: execute_command_def invoker_defs Let_def)

lemma invoker_undo:
  "invoker (undo w) =
     (if history (invoker w) = [] then invoker w
      else \<lparr>history = butlast (history (invoker w)),
            redo_stack = redo_stack (invoker w) @ [last (history (invoker w))]\<rparr>)"
  by (simp add: undo_def invoker_defs Let_def)

lemma invoker_redo:
  "invoker (redo w) =
     (if redo_stack (invoker w) = [] then invoker w
      else \<lparr>history = history (invoker w) @ [last (redo_stack (invoker w))],
            redo_stack = butlast (redo_stack (invoker w))\<rparr>)"
  by (simp add: redo_def invoker_defs Let_def)

lemma commands_undo: "commands (undo w) = commands w"
  by (simp add: undo_def invoker_defs Let_def)

lemma editor_history_pop [simp]: "editor (history_pop w) = editor w"
  by (simp add: history_pop_def)

lemma commands_history_pop [simp]: "commands (history_pop w) = commands w"
  by (simp add: history_pop_def)

lemma editor_undo:
  "history (invoker w) \<noteq> [] \<Longrightarrow>
   editor (undo w) = editor (Command_undo (last (history (invoker w))) (history_pop w))"
  by (simp add: undo_def invoker_defs Let_def)

lemma undo_empty: "history (invoker w) = [] \<Longrightarrow> undo w = print CannotUndo w"
  by (simp add: undo_def)

lemma redo_empty: "redo_stack (invoker w) = [] \<Longrightarrow> redo w = print CannotRedo w"
  by (simp add: redo_def)

lemma undo_empty_funpow:
  "history (invoker w) = [] \<Longrightarrow>
   (undo ^^ n) w = w\<lparr>stdout := stdout w @ replicate n CannotUndo\<rparr>"
proof (induction n)
  case 0
  then show ?case by simp
next
  case (Suc n)
  then show ?case
    by (simp add: undo_def print_def replicate_append_same)
qed

lemma redo_empty_funpow:
  "redo_stack (invoker w) = [] \<Longrightarrow>
   (redo ^^ n) w = w\<lparr>stdout := stdout w @ replicate n CannotRedo\<rparr>"
proof (induction n)
  case 0
  then show ?case by simp
next
  case (Suc n)
  then show ?case
    by (simp add: redo_def print_def replicate_append_same)
qed

lemma execute_all_append: "execute_all (as @ bs) w = execute_all bs (execute_all as w)"
  by (induction as arbitrary: w) simp_all

lemma indices_ok_all_append:
  "indices_ok_all (as @ bs) w \<Longrightarrow> indices_ok_all bs (execute_all as w)"
  by (induction as arbitrary: w) simp_all


subsection \<open>The redo stack after a new command\<close>

text \<open>
  Claim C3. \<open>execute_command\<close> leaves the redo stack empty, whatever it held. So after
  \<open>execute_command(A)\<close>, \<open>undo()\<close>, \<open>execute_command(B)\<close>, a call of \<open>redo()\<close> prints
  "Cannot redo. Redo stack is empty." and changes nothing else: the world after it is the
  world before it with that one line added to the output.
\<close>

theorem redo_cleared_by_execute:
  "redo_stack (invoker (execute_command a w)) = []
   \<and> redo (execute_command b (undo (execute_command a w)))
       = (execute_command b (undo (execute_command a w)))
           \<lparr>stdout := stdout (execute_command b (undo (execute_command a w))) @ [CannotRedo]\<rparr>"
  by (simp add: redo_def invoker_execute_command print_def)


subsection \<open>Undo and redo on empty stacks\<close>

text \<open>
  Claim C4. With an empty history, \<open>undo()\<close> prints "Cannot undo. History is empty." and
  returns: the editor, the command objects and both stacks are as before, and nothing is
  raised. Any number \<open>n\<close> of such calls adds \<open>n\<close> such lines and changes nothing else.
  \<open>redo()\<close> with an empty redo stack behaves in the same way with its own line.
\<close>

theorem empty_undo_redo_noop:
  "(history (invoker w) = [] \<longrightarrow>
      undo w = w\<lparr>stdout := stdout w @ [CannotUndo]\<rparr>
      \<and> (undo ^^ n) w = w\<lparr>stdout := stdout w @ replicate n CannotUndo\<rparr>)
   \<and> (redo_stack (invoker w) = [] \<longrightarrow>
      redo w = w\<lparr>stdout := stdout w @ [CannotRedo]\<rparr>
      \<and> (redo ^^ n) w = w\<lparr>stdout := stdout w @ replicate n CannotRedo\<rparr>)"
  by (simp add: undo_empty_funpow redo_empty_funpow undo_empty redo_empty print_def)

theorem empty_undo_redo_noop_witness:
  "history (invoker main_world) = [] \<and> redo_stack (invoker main_world) = []
   \<and> undo main_world = main_world\<lparr>stdout := stdout main_world @ [CannotUndo]\<rparr>
   \<and> (undo ^^ 3) main_world
       = main_world\<lparr>stdout := stdout main_world @ [CannotUndo, CannotUndo, CannotUndo]\<rparr>
   \<and> redo main_world = main_world\<lparr>stdout := stdout main_world @ [CannotRedo]\<rparr>
   \<and> (redo ^^ 3) main_world
       = main_world\<lparr>stdout := stdout main_world @ [CannotRedo, CannotRedo, CannotRedo]\<rparr>"
proof -
  have e: "history (invoker main_world) = []" "redo_stack (invoker main_world) = []"
    by (simp_all add: main_world_def initial_world_def)
  have r: "replicate 3 x = [x, x, x]" for x :: line
    by (simp add: numeral_3_eq_3)
  show ?thesis
    using e empty_undo_redo_noop [of main_world 3] by (simp add: r)
qed


subsection \<open>Undo and redo move one command between the stacks\<close>

text \<open>
  Claim C10. In every state of the invoker, \<open>undo()\<close> on a history that ends with the
  command \<open>c\<close> removes \<open>c\<close> from the history and puts it on top of the redo stack, and
  \<open>redo()\<close> on a redo stack that ends with \<open>c\<close> moves it back on top of the history;
  every call of \<open>undo()\<close> or \<open>redo()\<close>, also on empty stacks, keeps the sum of the two
  lengths; and \<open>undo()\<close> on a non-empty history followed by \<open>redo()\<close> gives both stacks
  their former contents.
\<close>

theorem undo_redo_move_one:
  "(history (invoker w) = h @ [c] \<longrightarrow>
      history (invoker (undo w)) = h
      \<and> redo_stack (invoker (undo w)) = redo_stack (invoker w) @ [c])
   \<and> (redo_stack (invoker w) = r @ [c] \<longrightarrow>
      redo_stack (invoker (redo w)) = r
      \<and> history (invoker (redo w)) = history (invoker w) @ [c])
   \<and> length (history (invoker (undo w))) + length (redo_stack (invoker (undo w)))
       = length (history (invoker w)) + length (redo_stack (invoker w))
   \<and> length (history (invoker (redo w))) + length (redo_stack (invoker (redo w)))
       = length (history (invoker w)) + length (redo_stack (invoker w))
   \<and> (history (invoker w) \<noteq> [] \<longrightarrow>
      history (invoker (redo (undo w))) = history (invoker w)
      \<and> redo_stack (invoker (redo (undo w))) = redo_stack (invoker w))"
  by (auto simp add: invoker_undo invoker_redo)

theorem undo_redo_move_one_witness:
  "history (invoker (execute_all [0, 1] main_world)) = [0] @ [1]
   \<and> history (invoker (undo (execute_all [0, 1] main_world))) = [0]
   \<and> redo_stack (invoker (undo (execute_all [0, 1] main_world))) = [1]
   \<and> redo_stack (invoker (undo (undo (execute_all [0, 1] main_world)))) = [1] @ [0]
   \<and> redo_stack (invoker (redo (undo (undo (execute_all [0, 1] main_world))))) = [1]
   \<and> history (invoker (redo (undo (undo (execute_all [0, 1] main_world))))) = [0]
   \<and> history (invoker (redo (undo (execute_all [0, 1] main_world)))) = [0, 1]
   \<and> redo_stack (invoker (redo (undo (execute_all [0, 1] main_world)))) = []"
proof -
  let ?w = "execute_all [0, 1] main_world"
  have h: "history (invoker ?w) = [0] @ [1]" "redo_stack (invoker ?w) = []"
    by (simp_all add: invoker_execute_command main_world_def initial_world_def)
  have u: "history (invoker (undo ?w)) = [0]" "redo_stack (invoker (undo ?w)) = [1]"
    using undo_redo_move_one [where w = ?w and h = "[0]" and c = 1] h by simp_all
  have uu: "redo_stack (invoker (undo (undo ?w))) = [1] @ [0]"
    "history (invoker (undo (undo ?w))) = []"
    using undo_redo_move_one [where w = "undo ?w" and h = "[]" and c = 0] u by simp_all
  have r: "redo_stack (invoker (redo (undo (undo ?w)))) = [1]"
    "history (invoker (redo (undo (undo ?w)))) = [0]"
    using undo_redo_move_one [where w = "undo (undo ?w)" and r = "[1]" and c = 0] uu by simp_all
  have ur: "history (invoker (redo (undo ?w))) = [0, 1]"
    "redo_stack (invoker (redo (undo ?w))) = []"
    using undo_redo_move_one [where w = ?w] h by simp_all
  show ?thesis using h u uu r ur by simp
qed


subsection \<open>Slices at indices that are not negative\<close>

lemma slice_index_nonneg: "0 \<le> i \<Longrightarrow> slice_index n i = min (nat i) n"
  by (simp add: slice_index_def)

lemma insert_text_nonneg:
  "0 \<le> p \<Longrightarrow>
   insert_text t p ed = ed\<lparr>content := take (nat p) (content ed) @ t @ drop (nat p) (content ed)\<rparr>"
  by (simp add: insert_text_def slice_to_def slice_from_def slice_index_nonneg min_def)

lemma delete_text_nonneg:
  "0 \<le> s \<Longrightarrow> 0 \<le> e \<Longrightarrow>
   delete_text s e ed =
     (take (nat e - nat s) (drop (nat s) (content ed)),
      ed\<lparr>content := take (nat s) (content ed) @ drop (nat e) (content ed)\<rparr>)"
  by (simp add: delete_text_def slice_def slice_to_def slice_from_def slice_index_nonneg
      min_def Let_def)

lemma insert_text_past_end:
  "int (length (content ed)) \<le> p \<Longrightarrow> insert_text t p ed = ed\<lparr>content := content ed @ t\<rparr>"
  by (simp add: insert_text_def slice_to_def slice_from_def slice_index_def)

lemma delete_text_past_end:
  "0 \<le> s \<Longrightarrow> int (length (content ed)) < e \<Longrightarrow>
   delete_text s e ed = (drop (nat s) (content ed), ed\<lparr>content := take (nat s) (content ed)\<rparr>)"
  by (simp add: delete_text_def slice_def slice_to_def slice_from_def slice_index_def
      Let_def min_def)

lemma insert_then_delete:
  assumes "0 \<le> p" "p \<le> int (length (content ed))"
  shows "delete_text p (p + int (length t)) (insert_text t p ed) = (t, ed)"
proof -
  have n: "nat (p + int (length t)) = nat p + length t" "nat p \<le> length (content ed)"
    using assms by (simp_all add: nat_add_distrib)
  show ?thesis
    using assms n by (simp add: insert_text_nonneg delete_text_nonneg)
qed

lemma delete_then_insert:
  assumes "0 \<le> s" "s \<le> e"
  shows "insert_text (fst (delete_text s e ed)) s (snd (delete_text s e ed)) = ed"
proof -
  have e: "0 \<le> e" "nat s \<le> nat e" using assms by simp_all
  let ?c = "content ed"
  have "take (nat e - nat s) (drop (nat s) ?c) @ drop (nat e) ?c = drop (nat s) ?c"
    using e(2) by (metis append_take_drop_id drop_drop le_add_diff_inverse2)
  then have "take (nat s) ?c @ take (nat e - nat s) (drop (nat s) ?c) @ drop (nat e) ?c = ?c"
    by simp
  then show ?thesis
    using assms e by (simp add: insert_text_nonneg delete_text_nonneg min_def)
qed


subsection \<open>The receiver's two operations never fail\<close>

text \<open>
  Claim C9. For indices that are not negative, \<open>insert_text\<close> and \<open>delete_text\<close> have a
  result for every input, given here in closed form, so neither raises: an index beyond
  the content is clipped to its length. With \<open>position\<close> at or beyond the length,
  \<open>insert_text\<close> appends the text; with \<open>end\<close> beyond the length, \<open>delete_text\<close> returns
  the rest of the content from \<open>start\<close> and leaves what is before \<open>start\<close>.
\<close>

theorem text_editor_total:
  "(0 \<le> position \<longrightarrow>
      insert_text inserted position ed
        = ed\<lparr>content := take (nat position) (content ed) @ inserted @ drop (nat position) (content ed)\<rparr>)
   \<and> (int (length (content ed)) \<le> position \<longrightarrow>
      insert_text inserted position ed = ed\<lparr>content := content ed @ inserted\<rparr>)
   \<and> (0 \<le> start \<and> 0 \<le> end' \<longrightarrow>
      delete_text start end' ed
        = (take (nat end' - nat start) (drop (nat start) (content ed)),
           ed\<lparr>content := take (nat start) (content ed) @ drop (nat end') (content ed)\<rparr>))
   \<and> (0 \<le> start \<and> int (length (content ed)) < end' \<longrightarrow>
      delete_text start end' ed
        = (drop (nat start) (content ed), ed\<lparr>content := take (nat start) (content ed)\<rparr>))"
  by (intro conjI impI; (elim conjE)?;
      (rule insert_text_nonneg insert_text_past_end delete_text_nonneg delete_text_past_end;
        assumption))

theorem text_editor_total_witness:
  "insert_text ''xy'' 5 \<lparr>content = ''ab''\<rparr> = \<lparr>content = ''abxy''\<rparr>
   \<and> insert_text ''xy'' 1 \<lparr>content = ''ab''\<rparr> = \<lparr>content = ''axyb''\<rparr>
   \<and> delete_text 1 10 \<lparr>content = ''abc''\<rparr> = (''bc'', \<lparr>content = ''a''\<rparr>)
   \<and> delete_text 1 2 \<lparr>content = ''abc''\<rparr> = (''b'', \<lparr>content = ''ac''\<rparr>)"
proof -
  have "insert_text ''xy'' 5 \<lparr>content = ''ab''\<rparr> = \<lparr>content = ''abxy''\<rparr>"
    using text_editor_total [where position = 5 and ed = "\<lparr>content = ''ab''\<rparr>" and inserted = "''xy''"]
    by simp
  moreover have "insert_text ''xy'' 1 \<lparr>content = ''ab''\<rparr> = \<lparr>content = ''axyb''\<rparr>"
    using text_editor_total [where position = 1 and ed = "\<lparr>content = ''ab''\<rparr>" and inserted = "''xy''"]
    by simp
  moreover have "delete_text 1 10 \<lparr>content = ''abc''\<rparr> = (''bc'', \<lparr>content = ''a''\<rparr>)"
    using text_editor_total [where start = 1 and end' = 10 and ed = "\<lparr>content = ''abc''\<rparr>"]
    by simp
  moreover have "delete_text 1 2 \<lparr>content = ''abc''\<rparr> = (''b'', \<lparr>content = ''ac''\<rparr>)"
    using text_editor_total [where start = 1 and end' = 2 and ed = "\<lparr>content = ''abc''\<rparr>"]
    by (simp add: numeral_2_eq_2)
  ultimately show ?thesis by simp
qed


subsection \<open>Execute, then undo\<close>

lemma editor_Command_undo_cong:
  "editor x = editor y \<Longrightarrow> commands x c = commands y c \<Longrightarrow>
   editor (Command_undo c x) = editor (Command_undo c y)"
  by (simp add: command_defs print_def Let_def split: command.split option.split)

lemma Command_roundtrip:
  assumes "indices_ok (content (editor w)) (commands w c)"
  shows "editor (Command_undo c (Command_execute c w)) = editor w"
proof (cases "commands w c")
  case (InsertTextCommand t p)
  with assms have "0 \<le> p" "p \<le> int (length (content (editor w)))" by simp_all
  then show ?thesis
    using InsertTextCommand
    by (simp add: command_defs print_def Let_def insert_then_delete)
next
  case (DeleteTextCommand s e d)
  with assms have "0 \<le> s" "s \<le> e" by simp_all
  then have "insert_text (fst (delete_text s e (editor w))) s (snd (delete_text s e (editor w)))
      = editor w"
    by (rule delete_then_insert)
  then show ?thesis
    using DeleteTextCommand
    by (simp add: command_defs print_def Let_def case_prod_beta)
qed

lemma undo_after_execute:
  assumes ok: "indices_ok (content (editor w)) (commands w c)"
    and ed: "editor x = editor (execute_command c w)"
    and hi: "history (invoker x) = history (invoker w) @ [c]"
    and co: "commands x c = commands (execute_command c w) c"
  shows "editor (undo x) = editor w" and "history (invoker (undo x)) = history (invoker w)"
proof -
  have "editor (undo x) = editor (Command_undo c (history_pop x))"
    using hi by (simp add: editor_undo)
  also have "\<dots> = editor (Command_undo c (Command_execute c w))"
    using ed co
    by (intro editor_Command_undo_cong)
      (simp_all add: editor_execute_command commands_execute_command)
  also have "\<dots> = editor w"
    using ok by (rule Command_roundtrip)
  finally show "editor (undo x) = editor w" .
  show "history (invoker (undo x)) = history (invoker w)"
    using hi by (simp add: invoker_undo)
qed

lemma undo_all_after_execute_all:
  "distinct cs \<Longrightarrow> indices_ok_all cs w \<Longrightarrow>
   editor ((undo ^^ length cs) (execute_all cs w)) = editor w
   \<and> history (invoker ((undo ^^ length cs) (execute_all cs w))) = history (invoker w)
   \<and> (\<forall>c. c \<notin> set cs \<longrightarrow> commands ((undo ^^ length cs) (execute_all cs w)) c = commands w c)"
proof (induction cs arbitrary: w)
  case Nil
  then show ?case by simp
next
  case (Cons c cs)
  let ?w' = "execute_command c w"
  let ?x = "(undo ^^ length cs) (execute_all cs ?w')"
  from Cons.prems have ok: "indices_ok (content (editor w)) (commands w c)"
    and oks: "indices_ok_all cs ?w'" and d: "distinct cs" and notin: "c \<notin> set cs"
    by simp_all
  from Cons.IH [OF d oks]
  have ed: "editor ?x = editor ?w'"
    and hi: "history (invoker ?x) = history (invoker ?w')"
    and co: "\<And>c'. c' \<notin> set cs \<Longrightarrow> commands ?x c' = commands ?w' c'"
    by simp_all
  have hi': "history (invoker ?x) = history (invoker w) @ [c]"
    using hi by (simp add: invoker_execute_command)
  have step: "(undo ^^ length (c # cs)) (execute_all (c # cs) w) = undo ?x"
    by simp
  have "editor (undo ?x) = editor w" "history (invoker (undo ?x)) = history (invoker w)"
    using undo_after_execute [OF ok ed hi' co [OF notin]] by simp_all
  moreover have "commands (undo ?x) c' = commands w c'" if "c' \<notin> set (c # cs)" for c'
  proof -
    from that have "c' \<noteq> c" "c' \<notin> set cs" by simp_all
    then show ?thesis
      by (simp add: commands_undo co commands_execute_command commands_Command_execute_other)
  qed
  ultimately show ?case
    unfolding step by blast
qed

text \<open>
  Claim C1, amended. The claim holds for commands whose indices fit, each command object
  being executed once: let \<open>cs\<close> be distinct command objects such that, on the content
  each one is executed on, no index is negative, an insertion lies within the content
  and a deletion's start is not after its end. After the invoker has executed them all,
  one \<open>undo()\<close> per command gives the editor the content it started with; after \<open>k\<close>
  calls of \<open>undo()\<close> the content is the one after the first \<open>length cs - k\<close> commands;
  and for each command of the sequence, \<open>undo\<close> right after \<open>execute\<close>, called on the
  command or through the invoker, gives back the content it was executed on. What happens
  for other indices, or when one object is executed twice, is not part of the statement.
\<close>

theorem execute_undo_roundtrip:
  assumes "distinct cs" and "indices_ok_all cs w"
  shows "content (editor ((undo ^^ length cs) (execute_all cs w))) = content (editor w)
    \<and> (\<forall>k \<le> length cs.
          content (editor ((undo ^^ k) (execute_all cs w)))
            = content (editor (execute_all (take (length cs - k) cs) w)))
    \<and> (\<forall>i < length cs.
          content (editor (Command_undo (cs ! i) (Command_execute (cs ! i) (execute_all (take i cs) w))))
            = content (editor (execute_all (take i cs) w))
          \<and> content (editor (undo (execute_command (cs ! i) (execute_all (take i cs) w))))
            = content (editor (execute_all (take i cs) w)))"
proof -
  have all: "editor ((undo ^^ length cs) (execute_all cs w)) = editor w"
    using undo_all_after_execute_all [OF assms] by blast
  have mid: "editor ((undo ^^ k) (execute_all cs w))
      = editor (execute_all (take (length cs - k) cs) w)" if "k \<le> length cs" for k
  proof -
    let ?as = "take (length cs - k) cs" and ?bs = "drop (length cs - k) cs"
    have len: "length ?bs = k" using that by simp
    have "distinct ?bs" using assms(1) by simp
    moreover have "indices_ok_all ?bs (execute_all ?as w)"
      using assms(2) indices_ok_all_append [of ?as ?bs w] by simp
    ultimately have "editor ((undo ^^ length ?bs) (execute_all ?bs (execute_all ?as w)))
        = editor (execute_all ?as w)"
      using undo_all_after_execute_all by blast
    moreover have "execute_all cs w = execute_all ?bs (execute_all ?as w)"
      using execute_all_append [of ?as ?bs w] by simp
    ultimately show ?thesis
      unfolding len by simp
  qed
  have one: "content (editor (Command_undo (cs ! i) (Command_execute (cs ! i) (execute_all (take i cs) w))))
            = content (editor (execute_all (take i cs) w))
          \<and> content (editor (undo (execute_command (cs ! i) (execute_all (take i cs) w))))
            = content (editor (execute_all (take i cs) w))" if "i < length cs" for i
  proof -
    let ?wi = "execute_all (take i cs) w"
    have "cs = take i cs @ cs ! i # drop (Suc i) cs"
      using that by (simp add: id_take_nth_drop)
    then have "indices_ok_all (cs ! i # drop (Suc i) cs) ?wi"
      using assms(2) indices_ok_all_append [of "take i cs" "cs ! i # drop (Suc i) cs" w] by simp
    then have ok: "indices_ok (content (editor ?wi)) (commands ?wi (cs ! i))" by simp
    have "editor (undo (execute_command (cs ! i) ?wi)) = editor ?wi"
      by (rule undo_after_execute(1) [OF ok]) (simp_all add: invoker_execute_command)
    then show ?thesis using Command_roundtrip [OF ok] by simp
  qed
  show ?thesis using mid all one by simp
qed

theorem execute_undo_roundtrip_witness:
  "distinct [0::ref, 1] \<and> indices_ok_all [0, 1] main_world
   \<and> content (editor ((undo ^^ 2) (execute_all [0, 1] main_world))) = ''The quick brown fox.''
   \<and> content (editor ((undo ^^ 1) (execute_all [0, 1] main_world))) = ''The lazy quick brown fox.''
   \<and> content (editor (undo (execute_command 1 (execute_command 0 main_world))))
       = content (editor (execute_command 0 main_world))"
proof -
  have d: "distinct [0::ref, 1]" by simp
  have ok: "indices_ok_all [0, 1] main_world" by code_simp
  have c0: "content (editor main_world) = ''The quick brown fox.''"
    by (simp add: main_world_def initial_world_def)
  have c1: "content (editor (execute_all (take (length [0::ref, 1] - 1) [0, 1]) main_world))
      = ''The lazy quick brown fox.''"
    by code_simp
  note r = execute_undo_roundtrip [OF d ok]
  have a: "content (editor ((undo ^^ 2) (execute_all [0, 1] main_world)))
      = content (editor main_world)"
    using r [THEN conjunct1] by (simp add: numeral_2_eq_2)
  have b: "content (editor ((undo ^^ 1) (execute_all [0, 1] main_world)))
      = content (editor (execute_all (take (length [0::ref, 1] - 1) [0, 1]) main_world))"
    using r [THEN conjunct2, THEN conjunct1, rule_format, of 1] by simp
  have c: "content (editor (undo (execute_command 1 (execute_command 0 main_world))))
      = content (editor (execute_command 0 main_world))"
    using r [THEN conjunct2, THEN conjunct2, rule_format, of 1] by simp
  from d ok a b c c0 c1 show ?thesis by (simp add: numeral_2_eq_2)
qed

text \<open>
  The claim as the specification states it, for every sequence of commands, fails in two
  ways. An insertion beyond the end appends, and its \<open>undo\<close> deletes nothing, its range
  being beyond the longer content. A deletion object executed twice keeps only the text
  of its second execution, and both calls of \<open>undo\<close> insert that text.
\<close>

theorem roundtrip_fails_outside:
  "content (editor (undo (execute_command 0 (initial_world ''ab'' (\<lambda>_. InsertTextCommand ''xy'' 5)))))
     \<noteq> content (editor (initial_world ''ab'' (\<lambda>_. InsertTextCommand ''xy'' 5)))
   \<and> content (editor (undo (execute_command 0 (initial_world ''ab'' (\<lambda>_. InsertTextCommand ''xy'' 5)))))
     = ''abxy''
   \<and> content (editor ((undo ^^ 2) (execute_all [0, 0] (initial_world ''abcd'' (\<lambda>_. DeleteTextCommand 0 2 None)))))
     \<noteq> content (editor (initial_world ''abcd'' (\<lambda>_. DeleteTextCommand 0 2 None)))
   \<and> content (editor ((undo ^^ 2) (execute_all [0, 0] (initial_world ''abcd'' (\<lambda>_. DeleteTextCommand 0 2 None)))))
     = ''cdcd''"
  by code_simp


subsection \<open>Undoing a deletion that never ran\<close>

text \<open>
  Claim C5, amended. \<open>undo()\<close> on a \<open>DeleteTextCommand\<close> whose \<open>execute()\<close> has not run,
  so that \<open>_deleted_text\<close> is \<open>None\<close>, returns at once and changes nothing: the content,
  the command objects and the stacks are as before and not a line is printed. No
  \<open>InvalidState\<close> or other error reaches the caller.
\<close>

theorem undo_before_execute_silent:
  "commands w c = DeleteTextCommand start end' None \<Longrightarrow> Command_undo c w = w"
  by (simp add: Command_undo_def DeleteTextCommand_undo_def)

theorem undo_before_execute_silent_witness:
  "commands main_world 1 = DeleteTextCommand 14 20 None \<and> Command_undo 1 main_world = main_world"
proof -
  have c: "commands main_world 1 = DeleteTextCommand 14 20 None"
    by (simp add: main_world_def initial_world_def)
  from c undo_before_execute_silent [OF c] show ?thesis by simp
qed

text \<open>
  The claim as stated fails on the script's own \<open>delete_cmd_1\<close> before it is executed:
  the specification's \<open>undo\<close> is an \<open>InvalidState\<close> error there, the script's \<open>undo\<close>
  returns the world it was given.
\<close>

theorem undo_before_execute_not_InvalidState:
  "spec_delete_undo 14 None main_world = Inl InvalidState
   \<and> Inr (DeleteTextCommand_undo 14 None main_world) \<noteq> spec_delete_undo 14 None main_world
   \<and> DeleteTextCommand_undo 14 None main_world = main_world
   \<and> stdout (Command_undo 1 main_world) = stdout main_world
   \<and> content (editor (Command_undo 1 main_world)) = ''The quick brown fox.''"
  by (simp add: spec_delete_undo_def DeleteTextCommand_undo_def Command_undo_def
      main_world_def initial_world_def)


subsection \<open>Deleting outside the bounds of the content\<close>

text \<open>
  Claim C6, amended. Executing a \<open>Delete(start, end)\<close> whose range does not lie within
  the content raises nothing: the bounds are clipped as a Python slice clips them, the
  command stores \<open>content[start:end]\<close>, the content becomes
  \<open>content[:start] + content[end:]\<close>, the command is appended to the history, the redo
  stack is emptied and the two lines of a successful execution are printed. When \<open>start\<close>
  is not negative and \<open>end\<close> is beyond the content, the content from \<open>start\<close> on is
  removed and stored.
\<close>

theorem delete_outside_bounds_clips:
  assumes "commands w c = DeleteTextCommand start end' deleted"
    and "outside_bounds (length (content (editor w))) start end'"
  shows "execute_command c w =
     w\<lparr>editor := (editor w)\<lparr>content := slice_to (content (editor w)) start
                                          @ slice_from (content (editor w)) end'\<rparr>,
       commands := (commands w)
         (c := DeleteTextCommand start end' (Some (slice (content (editor w)) start end'))),
       invoker := \<lparr>history = history (invoker w) @ [c], redo_stack = []\<rparr>,
       stdout := stdout w @
         [ExecutedDelete (slice (content (editor w)) start end')
            (slice_to (content (editor w)) start @ slice_from (content (editor w)) end'),
          CommandExecuted (Suc (length (history (invoker w))))]\<rparr>
    \<and> (0 \<le> start \<and> int (length (content (editor w))) < end' \<longrightarrow>
      content (editor (execute_command c w)) = take (nat start) (content (editor w))
      \<and> commands (execute_command c w) c
          = DeleteTextCommand start end' (Some (drop (nat start) (content (editor w)))))"
proof -
  have whole: "execute_command c w =
     w\<lparr>editor := (editor w)\<lparr>content := slice_to (content (editor w)) start
                                          @ slice_from (content (editor w)) end'\<rparr>,
       commands := (commands w)
         (c := DeleteTextCommand start end' (Some (slice (content (editor w)) start end'))),
       invoker := \<lparr>history = history (invoker w) @ [c], redo_stack = []\<rparr>,
       stdout := stdout w @
         [ExecutedDelete (slice (content (editor w)) start end')
            (slice_to (content (editor w)) start @ slice_from (content (editor w)) end'),
          CommandExecuted (Suc (length (history (invoker w))))]\<rparr>"
    using assms(1)
    by (simp add: execute_command_def Command_execute_def DeleteTextCommand_execute_def
        delete_text_def invoker_defs Let_def)
  have past: "content (editor (execute_command c w)) = take (nat start) (content (editor w))
      \<and> commands (execute_command c w) c
          = DeleteTextCommand start end' (Some (drop (nat start) (content (editor w))))"
    if "0 \<le> start" "int (length (content (editor w))) < end'"
    using assms(1) delete_text_past_end [OF that]
    by (simp add: editor_execute_command commands_execute_command Command_execute_def
        DeleteTextCommand_execute_def print_def Let_def)
  show ?thesis using whole past by blast
qed

theorem delete_outside_bounds_clips_witness:
  "outside_bounds (length ''abc'') 1 10
   \<and> content (editor (execute_command 0 (initial_world ''abc'' (\<lambda>_. DeleteTextCommand 1 10 None))))
       = ''a''
   \<and> commands (execute_command 0 (initial_world ''abc'' (\<lambda>_. DeleteTextCommand 1 10 None))) 0
       = DeleteTextCommand 1 10 (Some ''bc'')
   \<and> history (invoker (execute_command 0 (initial_world ''abc'' (\<lambda>_. DeleteTextCommand 1 10 None))))
       = [0]"
proof -
  let ?w = "initial_world ''abc'' (\<lambda>_. DeleteTextCommand 1 10 None)"
  have c: "commands ?w 0 = DeleteTextCommand 1 10 None"
    by (simp add: initial_world_def)
  have o: "outside_bounds (length (content (editor ?w))) 1 10"
    by (simp add: outside_bounds_def initial_world_def)
  have l: "content (editor ?w) = ''abc''" "history (invoker ?w) = []"
    by (simp_all add: initial_world_def)
  note r = delete_outside_bounds_clips [OF c o]
  have "content (editor (execute_command 0 ?w)) = ''a''"
    "commands (execute_command 0 ?w) 0 = DeleteTextCommand 1 10 (Some ''bc'')"
    using r [THEN conjunct2] l by simp_all
  moreover have "history (invoker (execute_command 0 ?w)) = [0]"
    using arg_cong [OF r [THEN conjunct1], of "\<lambda>x. history (invoker x)"] l by simp
  moreover have "outside_bounds (length ''abc'') 1 10"
    by (simp add: outside_bounds_def)
  ultimately show ?thesis by simp
qed

text \<open>
  The claim as stated fails for \<open>Delete(1, 10)\<close> on the content \<open>abc\<close>: the range is
  outside the bounds and the specification's \<open>execute\<close> is an \<open>OutOfRange\<close> error, while
  the script's \<open>execute\<close> returns, with the content \<open>a\<close> and the lines of a successful
  execution printed.
\<close>

theorem delete_outside_bounds_no_error:
  "outside_bounds (length (content (editor (initial_world ''abc'' (\<lambda>_. DeleteTextCommand 1 10 None))))) 1 10
   \<and> spec_delete_execute 0 1 10 (initial_world ''abc'' (\<lambda>_. DeleteTextCommand 1 10 None))
       = Inl OutOfRange
   \<and> Inr (DeleteTextCommand_execute 0 1 10 (initial_world ''abc'' (\<lambda>_. DeleteTextCommand 1 10 None)))
       \<noteq> spec_delete_execute 0 1 10 (initial_world ''abc'' (\<lambda>_. DeleteTextCommand 1 10 None))
   \<and> content (editor (execute_command 0 (initial_world ''abc'' (\<lambda>_. DeleteTextCommand 1 10 None))))
       = ''a''
   \<and> stdout (execute_command 0 (initial_world ''abc'' (\<lambda>_. DeleteTextCommand 1 10 None)))
       = [EditorInitialContent ''abc'', ExecutedDelete ''bc'' ''a'', CommandExecuted 1]"
proof -
  let ?w = "initial_world ''abc'' (\<lambda>_. DeleteTextCommand 1 10 None)"
  have out: "outside_bounds (length (content (editor ?w))) 1 10"
    by (simp add: outside_bounds_def initial_world_def)
  then have spec: "spec_delete_execute 0 1 10 ?w = Inl OutOfRange"
    by (simp add: spec_delete_execute_def)
  have differ: "Inr (DeleteTextCommand_execute 0 1 10 ?w) \<noteq> spec_delete_execute 0 1 10 ?w"
    unfolding spec by simp
  have code: "content (editor (execute_command 0 ?w)) = ''a''"
    "stdout (execute_command 0 ?w)
       = [EditorInitialContent ''abc'', ExecutedDelete ''bc'' ''a'', CommandExecuted 1]"
    by code_simp+
  show ?thesis using out spec differ code by blast
qed


subsection \<open>The script's own run\<close>

text \<open>
  Claim C7. The run of the script, step by step: the contents after the insertion, after
  the deletion, after each of the two calls of \<open>undo()\<close> and after the two calls of
  \<open>redo()\<close> are the ones the claim gives. The text that \<open>Delete(14, 20)\<close> removes and
  stores is the blank followed by \<open>brown\<close>, not \<open>brown\<close> followed by a blank as the
  claim and the comment in the script say: the characters at 14 to 19 of the content
  after the insertion.
\<close>

theorem main_scenario:
  "content (editor main_world) = ''The quick brown fox.''
   \<and> content (editor (execute_command 0 main_world)) = ''The lazy quick brown fox.''
   \<and> content (editor (execute_command 1 (execute_command 0 main_world))) = ''The lazy quick fox.''
   \<and> commands (execute_command 1 (execute_command 0 main_world)) 1
       = DeleteTextCommand 14 20 (Some '' brown'')
   \<and> Some '' brown'' \<noteq> Some ''brown ''
   \<and> content (editor (undo (execute_command 1 (execute_command 0 main_world))))
       = ''The lazy quick brown fox.''
   \<and> content (editor (undo (undo (execute_command 1 (execute_command 0 main_world)))))
       = ''The quick brown fox.''
   \<and> content (editor (redo (redo (undo (undo (execute_command 1 (execute_command 0 main_world)))))))
       = ''The lazy quick fox.''"
  by code_simp


section \<open>Theorems about the caretaker of \<open>Behavioral/memento.py\<close>\<close>

lemma last_butlast_nth:
  "2 \<le> length xs \<Longrightarrow> last (butlast xs) = xs ! (length xs - 2)"
proof -
  assume a: "2 \<le> length xs"
  then have "butlast xs \<noteq> []" by (cases xs) (auto simp: Suc_le_eq)
  then have "last (butlast xs) = butlast xs ! (length (butlast xs) - 1)"
    by (rule last_conv_nth)
  also have "\<dots> = xs ! (length xs - 2)"
    using a by (simp add: nth_butlast numeral_2_eq_2)
  finally show ?thesis .
qed

text \<open>
  Claim C8. With two or more mementos saved, \<open>HistoryManager.undo\<close> removes the last
  one and returns the one before it, here in two forms: for any history of length two or
  more, and for any history after two calls of \<open>save_state\<close>. With fewer than two it
  returns \<open>None\<close>, prints its line and leaves the history as it is. With exactly two, one
  call returns the first memento and leaves only that one, so that the next call returns
  \<open>None\<close> and the history stays at one memento: the removed snapshot is gone.
\<close>

theorem HistoryManager_undo_pops:
  "(2 \<le> length (snapshots h) \<longrightarrow>
      HistoryManager_undo h
        = (Some (snapshots h ! (length (snapshots h) - 2)), h\<lparr>snapshots := butlast (snapshots h)\<rparr>))
   \<and> HistoryManager_undo (save_state b (save_state a h))
        = (Some a, (save_state b (save_state a h))\<lparr>snapshots := snapshots h @ [a]\<rparr>)
   \<and> (length (snapshots h) < 2 \<longrightarrow>
      HistoryManager_undo h = (None, h\<lparr>reported := reported h @ [CannotUndoNoPrevious]\<rparr>))
   \<and> (length (snapshots h) = 2 \<longrightarrow>
      fst (HistoryManager_undo h) = Some (hd (snapshots h))
      \<and> snapshots (snd (HistoryManager_undo h)) = [hd (snapshots h)]
      \<and> fst (HistoryManager_undo (snd (HistoryManager_undo h))) = None
      \<and> snapshots (snd (HistoryManager_undo (snd (HistoryManager_undo h)))) = [hd (snapshots h)])"
proof -
  have two: "HistoryManager_undo h
        = (Some (snapshots h ! (length (snapshots h) - 2)), h\<lparr>snapshots := butlast (snapshots h)\<rparr>)"
    if "2 \<le> length (snapshots h)"
    using that by (simp add: HistoryManager_undo_def Let_def last_butlast_nth)
  have saved: "HistoryManager_undo (save_state b (save_state a h))
        = (Some a, (save_state b (save_state a h))\<lparr>snapshots := snapshots h @ [a]\<rparr>)"
    by (simp add: HistoryManager_undo_def save_state_def Let_def butlast_append)
  have few: "HistoryManager_undo h = (None, h\<lparr>reported := reported h @ [CannotUndoNoPrevious]\<rparr>)"
    if "length (snapshots h) < 2"
    using that by (simp add: HistoryManager_undo_def)
  have exactly: "fst (HistoryManager_undo h) = Some (hd (snapshots h))
      \<and> snapshots (snd (HistoryManager_undo h)) = [hd (snapshots h)]
      \<and> fst (HistoryManager_undo (snd (HistoryManager_undo h))) = None
      \<and> snapshots (snd (HistoryManager_undo (snd (HistoryManager_undo h)))) = [hd (snapshots h)]"
    if "length (snapshots h) = 2"
  proof -
    from that obtain x y where xy: "snapshots h = [x, y]"
      by (cases "snapshots h"; cases "tl (snapshots h)") auto
    then show ?thesis
      by (simp add: HistoryManager_undo_def Let_def)
  qed
  show ?thesis using two saved few exactly by blast
qed

theorem HistoryManager_undo_pops_witness:
  "HistoryManager_undo (save_state (FormState_init [(''name'', ''Bob'')])
      (save_state (FormState_init [(''name'', ''Alice'')]) HistoryManager_init))
   = (Some (FormState_init [(''name'', ''Alice'')]),
      \<lparr>snapshots = [FormState_init [(''name'', ''Alice'')]],
       reported = [SavedMemento 1, SavedMemento 2]\<rparr>)
   \<and> fst (HistoryManager_undo (snd (HistoryManager_undo
        (save_state (FormState_init [(''name'', ''Bob'')])
          (save_state (FormState_init [(''name'', ''Alice'')]) HistoryManager_init))))) = None
   \<and> HistoryManager_undo HistoryManager_init
      = (None, \<lparr>snapshots = [], reported = [CannotUndoNoPrevious]\<rparr>)"
proof -
  let ?h = "save_state (FormState_init [(''name'', ''Bob'')])
      (save_state (FormState_init [(''name'', ''Alice'')]) HistoryManager_init)"
  have l2: "length (snapshots ?h) = 2" "2 \<le> length (snapshots ?h)"
    by (simp_all add: save_state_def HistoryManager_init_def Let_def)
  have l0: "length (snapshots HistoryManager_init) < 2"
    by (simp add: HistoryManager_init_def)
  from HistoryManager_undo_pops [of ?h] l2 HistoryManager_undo_pops [of HistoryManager_init] l0
  show ?thesis
    by (simp add: save_state_def HistoryManager_init_def Let_def)
qed

end
